theory Spec2Isabelle
  imports Main "HOL-Library.AList"
begin

section \<open>Python values\<close>

text \<open>
  The values that travel through \<^verbatim>\<open>storage.py\<close> and \<^verbatim>\<open>config.py\<close>. Dictionaries are
  association lists in insertion order whose keys are strings (attribute names and
  JSON object keys); \<open>AList.update\<close> is Python's \<^verbatim>\<open>d[k] = v\<close> (replace in place, or
  append). \<open>PCallable\<close> stands for a function object (the methods found in a class
  namespace), \<open>PDescr\<close> for the \<^verbatim>\<open>__dict__\<close> and \<^verbatim>\<open>__weakref__\<close> descriptors of a class,
  \<open>PStoreRef\<close> for a reference to a \<^verbatim>\<open>JSONStore\<close> object on the heap and \<open>PStorageObj\<close>
  for an instance of \<^verbatim>\<open>Storage\<close>.
\<close>

datatype pyval =
    PNone
  | PBool bool
  | PInt int
  | PStr string
  | PList "pyval list"
  | PDict "(string \<times> pyval) list"
  | PCallable string
  | PDescr string
  | PStoreRef nat
  | PStorageObj

type_synonym pydict = "(string \<times> pyval) list"

datatype py_error =
    KeyError | TypeError | AttributeError | ValueError | IOError | OSError | ConfigError

text \<open>\<^verbatim>\<open>dict.update(other)\<close> for a dictionary \<open>other\<close>: one item assignment per entry.\<close>

definition dict_update :: "pydict \<Rightarrow> pydict \<Rightarrow> pydict" where
  "dict_update other d = fold (\<lambda>(k, v). AList.update k v) other d"

text \<open>\<^verbatim>\<open>d.get(k, default)\<close>.\<close>

definition dict_get :: "pydict \<Rightarrow> string \<Rightarrow> pyval \<Rightarrow> pyval" where
  "dict_get d k dflt = (case map_of d k of None \<Rightarrow> dflt | Some v \<Rightarrow> v)"

text \<open>Equality of two dictionaries: the same items, whatever the order.\<close>

definition dict_eq :: "pydict \<Rightarrow> pydict \<Rightarrow> bool" where
  "dict_eq a b \<longleftrightarrow> list_all (\<lambda>k. map_of a k = map_of b k) (map fst a @ map fst b)"

text \<open>
  \<^verbatim>\<open>str.isupper()\<close>: at least one cased character and no lower-case one. Characters
  are bytes and case is ASCII case.
\<close>

definition is_upper_char :: "char \<Rightarrow> bool" where
  "is_upper_char c \<longleftrightarrow> 65 \<le> (of_char c :: nat) \<and> (of_char c :: nat) \<le> 90"

definition is_lower_char :: "char \<Rightarrow> bool" where
  "is_lower_char c \<longleftrightarrow> 97 \<le> (of_char c :: nat) \<and> (of_char c :: nat) \<le> 122"

definition isupper :: "string \<Rightarrow> bool" where
  "isupper s \<longleftrightarrow> list_ex is_upper_char s \<and> \<not> list_ex is_lower_char s"

text \<open>What \<^verbatim>\<open>json.dumps\<close> accepts: it raises \<^verbatim>\<open>TypeError\<close> on anything else.\<close>

fun json_ok :: "pyval \<Rightarrow> bool" where
  "json_ok PNone = True"
| "json_ok (PBool b) = True"
| "json_ok (PInt i) = True"
| "json_ok (PStr s) = True"
| "json_ok (PList xs) = (\<forall>x \<in> set xs. json_ok x)"
| "json_ok (PDict kvs) = (\<forall>v \<in> snd ` set kvs. json_ok v)"
| "json_ok (PCallable f) = False"
| "json_ok (PDescr n) = False"
| "json_ok (PStoreRef r) = False"
| "json_ok PStorageObj = False"

text \<open>
  \<^verbatim>\<open>x[key]\<close> for a string \<open>key\<close>: a dictionary looks the key up and raises \<^verbatim>\<open>KeyError\<close>
  when it is absent, the other JSON values raise \<^verbatim>\<open>TypeError\<close>.
\<close>

definition subscript :: "pyval \<Rightarrow> string \<Rightarrow> py_error + pyval" where
  "subscript x key =
     (case x of
        PDict d \<Rightarrow> (case map_of d key of None \<Rightarrow> Inl KeyError | Some v \<Rightarrow> Inr v)
      | _ \<Rightarrow> Inl TypeError)"

section \<open>The file system\<close>

text \<open>
  A file holds a JSON object (what \<^verbatim>\<open>json.load\<close> returns for it), the generated client
  configuration (its assignment lines, each with the format string used and the value
  formatted), or bytes that \<^verbatim>\<open>json.load\<close> rejects (an empty file among them). \<open>denied\<close>
  lists the paths on which \<^verbatim>\<open>open\<close> and \<^verbatim>\<open>os.mkdir\<close> raise. \<open>write_log\<close> records the
  path of every completed write, in order. A JSON file whose top level is not an
  object is not represented.
\<close>

datatype config_line = StrAttr string pyval | RawAttr string pyval

datatype disk_file = Document pydict | ClientConfigPy "config_line list" | Garbage

record world =
  files :: "(string \<times> disk_file) list"
  dirs :: "string list"
  denied :: "string list"
  cwd :: string
  write_log :: "string list"

text \<open>\<^verbatim>\<open>posixpath.join\<close>.\<close>

definition path_join :: "string \<Rightarrow> string \<Rightarrow> string" where
  "path_join a b =
     (if b \<noteq> [] \<and> hd b = CHR ''/'' then b
      else if a = [] \<or> last a = CHR ''/'' then a @ b
      else a @ ''/'' @ b)"

definition path_exists :: "world \<Rightarrow> string \<Rightarrow> bool" where
  "path_exists w p \<longleftrightarrow> p \<in> set (dirs w) \<or> map_of (files w) p \<noteq> None"

text \<open>
  \<^verbatim>\<open>with io.open(path, 'r') as fp: json.load(fp)\<close>: \<^verbatim>\<open>IOError\<close> when the file cannot be
  opened, \<^verbatim>\<open>ValueError\<close> when it does not parse.
\<close>

definition read_json :: "world \<Rightarrow> string \<Rightarrow> py_error + pydict" where
  "read_json w p =
     (if p \<in> set (denied w) then Inl IOError
      else case map_of (files w) p of
             None \<Rightarrow> Inl IOError
           | Some (Document d) \<Rightarrow> Inr d
           | Some (ClientConfigPy ls) \<Rightarrow> Inl ValueError
           | Some Garbage \<Rightarrow> Inl ValueError)"

definition write_file :: "string \<Rightarrow> disk_file \<Rightarrow> world \<Rightarrow> world" where
  "write_file p f w = w\<lparr>files := AList.update p f (files w), write_log := write_log w @ [p]\<rparr>"

text \<open>\<^verbatim>\<open>open(path, 'w')\<close> alone: the file is created or truncated, nothing is written.\<close>

definition truncate_file :: "string \<Rightarrow> world \<Rightarrow> world" where
  "truncate_file p w = w\<lparr>files := AList.update p Garbage (files w)\<rparr>"

section \<open>JSONStore\<close>

record json_store =
  path :: string
  json_kw :: pydict
  data :: pydict
  synced_json_kw :: "pydict option"
  needs_sync :: bool
  data_from_disk_loaded :: bool

text \<open>\<^verbatim>\<open>JSONStore.__init__\<close>: no file is touched.\<close>

definition JSONStore_init :: "string \<Rightarrow> pydict option \<Rightarrow> json_store" where
  "JSONStore_init p kw =
     \<lparr>path = p,
      json_kw = (case kw of None \<Rightarrow> [] | Some k \<Rightarrow> k),
      data = [],
      synced_json_kw = None,
      needs_sync = False,
      data_from_disk_loaded = False\<rparr>"

text \<open>
  The body of \<^verbatim>\<open>__setitem__\<close> after its guard: \<^verbatim>\<open>self._data[key] = value\<close> and
  \<^verbatim>\<open>self._needs_sync = True\<close>.
\<close>

definition setitem_loaded :: "string \<Rightarrow> pyval \<Rightarrow> json_store \<Rightarrow> json_store" where
  "setitem_loaded key v s = s\<lparr>data := AList.update key v (data s), needs_sync := True\<rparr>"

text \<open>
  \<^verbatim>\<open>_load_data_from_disk\<close>. The flag is set first, so the item assignments made by
  \<^verbatim>\<open>self.update\<close> go straight to the body of \<^verbatim>\<open>__setitem__\<close>. Every exception of the read
  is caught: the function has no error result.
\<close>

definition JSONStore_load_data_from_disk :: "world \<Rightarrow> json_store \<Rightarrow> json_store" where
  "JSONStore_load_data_from_disk w s =
     (let s1 = s\<lparr>data_from_disk_loaded := True\<rparr>
      in case read_json w (path s1) of
           Inl err \<Rightarrow> s1
         | Inr doc \<Rightarrow> fold (\<lambda>(k, v). setitem_loaded k v) doc s1)"

text \<open>The guard that opens every method: load on first use.\<close>

definition ensure_loaded :: "world \<Rightarrow> json_store \<Rightarrow> json_store" where
  "ensure_loaded w s =
     (if data_from_disk_loaded s = False then JSONStore_load_data_from_disk w s else s)"

definition JSONStore_getitem :: "world \<Rightarrow> string \<Rightarrow> json_store \<Rightarrow> (py_error + pyval) \<times> json_store" where
  "JSONStore_getitem w key s =
     (let s1 = ensure_loaded w s
      in case map_of (data s1) key of
           None \<Rightarrow> (Inl KeyError, s1)
         | Some v \<Rightarrow> (Inr v, s1))"

definition JSONStore_setitem :: "world \<Rightarrow> string \<Rightarrow> pyval \<Rightarrow> json_store \<Rightarrow> json_store" where
  "JSONStore_setitem w key v s = setitem_loaded key v (ensure_loaded w s)"

definition JSONStore_delitem :: "world \<Rightarrow> string \<Rightarrow> json_store \<Rightarrow> (py_error + unit) \<times> json_store" where
  "JSONStore_delitem w key s =
     (let s1 = ensure_loaded w s
      in case map_of (data s1) key of
           None \<Rightarrow> (Inl KeyError, s1)
         | Some v \<Rightarrow> (Inr (), s1\<lparr>data := AList.delete key (data s1), needs_sync := True\<rparr>))"

definition JSONStore_len :: "world \<Rightarrow> json_store \<Rightarrow> nat \<times> json_store" where
  "JSONStore_len w s = (let s1 = ensure_loaded w s in (length (data s1), s1))"

text \<open>\<^verbatim>\<open>__iter__\<close> yields the items, not the keys.\<close>

definition JSONStore_iter :: "world \<Rightarrow> json_store \<Rightarrow> pydict \<times> json_store" where
  "JSONStore_iter w s = (let s1 = ensure_loaded w s in (data s1, s1))"

definition JSONStore_copy :: "world \<Rightarrow> json_store \<Rightarrow> pydict \<times> json_store" where
  "JSONStore_copy w s = (let s1 = ensure_loaded w s in (data s1, s1))"

definition JSONStore_keys :: "world \<Rightarrow> json_store \<Rightarrow> string list \<times> json_store" where
  "JSONStore_keys w s = (let s1 = ensure_loaded w s in (map fst (data s1), s1))"

text \<open>
  \<^verbatim>\<open>hasattr(v, '__call__')\<close>. It holds of a function, and of an instance of \<^verbatim>\<open>Storage\<close>
  too, whose \<^verbatim>\<open>__getattr__\<close> answers \<^verbatim>\<open>None\<close> for every unknown name.
\<close>

definition has_call :: "pyval \<Rightarrow> bool" where
  "has_call v = (case v of PCallable f \<Rightarrow> True | PStorageObj \<Rightarrow> True | _ \<Rightarrow> False)"

definition is_JSONStore :: "pyval \<Rightarrow> bool" where
  "is_JSONStore v = (case v of PStoreRef r \<Rightarrow> True | _ \<Rightarrow> False)"

fun JSONStore_sanatize :: "pydict \<Rightarrow> pydict" where
  "JSONStore_sanatize [] = []"
| "JSONStore_sanatize ((k, v) # rest) =
     (if has_call v then JSONStore_sanatize rest
      else if is_JSONStore v then JSONStore_sanatize rest
      else if k \<in> set [''__weakref__'', ''__module__'', ''__dict__'', ''__doc__'']
        then JSONStore_sanatize rest
      else (k, v) # JSONStore_sanatize rest)"

text \<open>\<^verbatim>\<open>self._synced_json_kw != json_kw\<close>: \<^verbatim>\<open>None\<close> differs from every dictionary.\<close>

definition kw_differs :: "pydict option \<Rightarrow> pydict \<Rightarrow> bool" where
  "kw_differs synced kw = (case synced of None \<Rightarrow> True | Some k \<Rightarrow> \<not> dict_eq k kw)"

text \<open>\<^verbatim>\<open>json_kw or self.json_kw\<close>: the store's options when the argument is \<^verbatim>\<open>None\<close> or empty.\<close>

definition or_json_kw :: "pydict option \<Rightarrow> json_store \<Rightarrow> pydict" where
  "or_json_kw kw_arg s =
     (case kw_arg of None \<Rightarrow> json_kw s | Some k \<Rightarrow> if k = [] then json_kw s else k)"

text \<open>
  \<^verbatim>\<open>sync\<close>. The file is opened for writing before the data is serialised: a
  path that cannot be opened raises \<^verbatim>\<open>IOError\<close> and leaves the file alone, data that
  \<^verbatim>\<open>json.dumps\<close> rejects raises \<^verbatim>\<open>TypeError\<close> and leaves the file truncated. In both
  cases the flag set by the comparison of the options stays.
\<close>

definition JSONStore_sync ::
  "pydict option \<Rightarrow> bool \<Rightarrow> json_store \<Rightarrow> world \<Rightarrow> (py_error + bool) \<times> json_store \<times> world" where
  "JSONStore_sync kw_arg force s w =
     (let s1 = ensure_loaded w s;
          kw = or_json_kw kw_arg s1;
          s2 = (if kw_differs (synced_json_kw s1) kw then s1\<lparr>needs_sync := True\<rparr> else s1)
      in if \<not> (needs_sync s2 \<or> force) then (Inr False, s2, w)
         else
           let d = JSONStore_sanatize (data s2)
           in if path s2 \<in> set (denied w) then (Inl IOError, s2, w)
              else if \<not> json_ok (PDict d) then (Inl TypeError, s2, truncate_file (path s2) w)
              else (Inr True,
                    s2\<lparr>synced_json_kw := Some kw, needs_sync := False\<rparr>,
                    write_file (path s2) (Document d) w))"

subsection \<open>A store in use\<close>

text \<open>
  The calls a client makes on one store, and a run of them. Beside the store and the
  file system a run keeps a ghost flag \<open>mutated\<close>: set by every \<^verbatim>\<open>store[k] = v\<close> and
  every \<^verbatim>\<open>del store[k]\<close> that returns, cleared by every \<^verbatim>\<open>sync\<close> that writes the file. An
  exception raised by a call leaves the state the call had reached.
\<close>

datatype store_op =
    Get string | Set string pyval | Del string | Len | Iter | Copy | Keys
  | Sync "pydict option" bool

record session =
  store :: json_store
  disk :: world
  mutated :: bool

fun apply_op :: "store_op \<Rightarrow> session \<Rightarrow> session" where
  "apply_op (Get k) t = t\<lparr>store := snd (JSONStore_getitem (disk t) k (store t))\<rparr>"
| "apply_op (Set k v) t = t\<lparr>store := JSONStore_setitem (disk t) k v (store t), mutated := True\<rparr>"
| "apply_op (Del k) t =
     (case JSONStore_delitem (disk t) k (store t) of
        (Inl e, s) \<Rightarrow> t\<lparr>store := s\<rparr>
      | (Inr u, s) \<Rightarrow> t\<lparr>store := s, mutated := True\<rparr>)"
| "apply_op Len t = t\<lparr>store := snd (JSONStore_len (disk t) (store t))\<rparr>"
| "apply_op Iter t = t\<lparr>store := snd (JSONStore_iter (disk t) (store t))\<rparr>"
| "apply_op Copy t = t\<lparr>store := snd (JSONStore_copy (disk t) (store t))\<rparr>"
| "apply_op Keys t = t\<lparr>store := snd (JSONStore_keys (disk t) (store t))\<rparr>"
| "apply_op (Sync kw force) t =
     (case JSONStore_sync kw force (store t) (disk t) of
        (res, s, w) \<Rightarrow>
          t\<lparr>store := s, disk := w, mutated := (if res = Inr True then False else mutated t)\<rparr>)"

definition new_session :: "string \<Rightarrow> pydict option \<Rightarrow> world \<Rightarrow> session" where
  "new_session p kw w = \<lparr>store = JSONStore_init p kw, disk = w, mutated = False\<rparr>"

definition run_ops :: "store_op list \<Rightarrow> session \<Rightarrow> session" where
  "run_ops ops t = fold apply_op ops t"

section \<open>Storage\<close>

text \<open>
  The constants of \<^verbatim>\<open>pyupdater/settings.py\<close> that the two modules read. The module is
  not among the sources, so its values are parameters of everything below.
\<close>

record settings =
  CONFIG_DATA_FOLDER :: string
  CONFIG_FILE_USER :: string
  CONFIG_DB_KEY_APP_CONFIG :: string
  CONFIG_DB_KEY_KEYPACK :: string
  GENERIC_APP_NAME :: pyval
  DEFAULT_CLIENT_CONFIG :: pyval

text \<open>
  \<^verbatim>\<open>Storage.__setattr__\<close> sends every attribute assignment to the class, so an instance
  of \<^verbatim>\<open>Storage\<close> carries no state of its own: the methods are functions of the state of
  the process, which is the namespace of the class (\<^verbatim>\<open>Storage.__dict__\<close>), the
  \<^verbatim>\<open>JSONStore\<close> objects created so far, and the file system. Two instances cannot be
  told apart. A method called on an instance is taken to be the function the class
  body defines under that name.
\<close>

record pystate =
  Storage_dict :: pydict
  heap :: "json_store list"
  env :: world

text \<open>The namespace the class statement leaves behind.\<close>

definition Storage_class_body :: pydict where
  "Storage_class_body =
     [(''__module__'', PStr ''pyupdater.utils.storage''),
      (''__init__'', PCallable ''__init__''),
      (''__getattr__'', PCallable ''__getattr__''),
      (''__setattr__'', PCallable ''__setattr__''),
      (''__delattr__'', PCallable ''__delattr__''),
      (''__getitem__'', PCallable ''__getitem__''),
      (''__setitem__'', PCallable ''__setitem__''),
      (''_load_db'', PCallable ''_load_db''),
      (''save'', PCallable ''save''),
      (''load'', PCallable ''load''),
      (''__dict__'', PDescr ''__dict__''),
      (''__weakref__'', PDescr ''__weakref__''),
      (''__doc__'', PNone)]"

definition fresh_process :: "world \<Rightarrow> pystate" where
  "fresh_process w = \<lparr>Storage_dict = Storage_class_body, heap = [], env = w\<rparr>"

text \<open>
  \<^verbatim>\<open>self.name\<close> on an instance: the class attribute, and \<^verbatim>\<open>None\<close> from \<^verbatim>\<open>__getattr__\<close>
  when there is none.
\<close>

definition Storage_getattr :: "pystate \<Rightarrow> string \<Rightarrow> pyval" where
  "Storage_getattr st name = dict_get (Storage_dict st) name PNone"

text \<open>\<^verbatim>\<open>setattr(Storage, name, value)\<close>, which \<^verbatim>\<open>self.name = value\<close> comes down to.\<close>

definition Storage_setattr :: "string \<Rightarrow> pyval \<Rightarrow> pystate \<Rightarrow> pystate" where
  "Storage_setattr name v st = st\<lparr>Storage_dict := AList.update name v (Storage_dict st)\<rparr>"

text \<open>
  \<^verbatim>\<open>self.db\<close> where a \<^verbatim>\<open>JSONStore\<close> is needed. Every use of another value bound to
  \<^verbatim>\<open>db\<close> is taken to raise at once.
\<close>

definition self_db :: "pystate \<Rightarrow> nat option" where
  "self_db st =
     (case Storage_getattr st ''db'' of
        PStoreRef r \<Rightarrow> if r < length (heap st) then Some r else None
      | _ \<Rightarrow> None)"

definition Storage_load_db :: "pystate \<Rightarrow> (py_error + unit) \<times> pystate" where
  "Storage_load_db st =
     (case self_db st of
        None \<Rightarrow> (Inl TypeError, st)
      | Some r \<Rightarrow>
          (case JSONStore_iter (env st) (heap st ! r) of
             (items, s1) \<Rightarrow>
               (Inr (), fold (\<lambda>(k, v). Storage_setattr k v) items
                          (st\<lparr>heap := (heap st)[r := s1]\<rparr>))))"

text \<open>The loop of \<^verbatim>\<open>save\<close>: \<^verbatim>\<open>self.db[k] = v\<close> for every item of the class namespace.\<close>

fun save_items :: "pydict \<Rightarrow> pystate \<Rightarrow> (py_error + unit) \<times> pystate" where
  "save_items [] st = (Inr (), st)"
| "save_items ((k, v) # rest) st =
     (case self_db st of
        None \<Rightarrow> (Inl TypeError, st)
      | Some r \<Rightarrow>
          save_items rest
            (st\<lparr>heap := (heap st)[r := JSONStore_setitem (env st) k v (heap st ! r)]\<rparr>))"

text \<open>\<^verbatim>\<open>self.db.sync()\<close>; the result of \<^verbatim>\<open>sync\<close> is dropped.\<close>

definition db_sync :: "pystate \<Rightarrow> (py_error + unit) \<times> pystate" where
  "db_sync st =
     (case self_db st of
        None \<Rightarrow> (Inl AttributeError, st)
      | Some r \<Rightarrow>
          (case JSONStore_sync None False (heap st ! r) (env st) of
             (res, s1, w1) \<Rightarrow>
               (case res of Inl e \<Rightarrow> Inl e | Inr b \<Rightarrow> Inr (),
                st\<lparr>heap := (heap st)[r := s1], env := w1\<rparr>)))"

definition Storage_save :: "string \<Rightarrow> pyval \<Rightarrow> pystate \<Rightarrow> (py_error + unit) \<times> pystate" where
  "Storage_save key v st =
     (case (if Storage_getattr st ''_loaded_db'' = PBool False then Storage_load_db st
            else (Inr (), st)) of
        (Inl e, st1) \<Rightarrow> (Inl e, st1)
      | (Inr u, st1) \<Rightarrow>
          (let st2 = Storage_setattr key v st1
           in case save_items (Storage_dict st2) st2 of
                (Inl e, st3) \<Rightarrow> (Inl e, st3)
              | (Inr u, st3) \<Rightarrow> db_sync st3))"

definition Storage_load :: "string \<Rightarrow> pystate \<Rightarrow> (py_error + pyval) \<times> pystate" where
  "Storage_load key st =
     (case (if Storage_getattr st ''_loaded_db'' = PBool False then Storage_load_db st
            else (Inr (), st)) of
        (Inl e, st1) \<Rightarrow> (Inl e, st1)
      | (Inr u, st1) \<Rightarrow> (Inr (dict_get (Storage_dict st1) key PNone), st1))"

definition os_mkdir :: "string \<Rightarrow> world \<Rightarrow> py_error + world" where
  "os_mkdir p w = (if p \<in> set (denied w) then Inl OSError else Inr (w\<lparr>dirs := p # dirs w\<rparr>))"

text \<open>
  \<^verbatim>\<open>Storage.__init__\<close>. \<^verbatim>\<open>self.config_dir\<close> and \<^verbatim>\<open>self.filename\<close> are read back right after
  they are assigned, so the values assigned are used.
\<close>

definition Storage_init :: "settings \<Rightarrow> bool \<Rightarrow> pystate \<Rightarrow> (py_error + unit) \<times> pystate" where
  "Storage_init S refresh st =
     (let config_dir = path_join (cwd (env st)) (CONFIG_DATA_FOLDER S);
          st1 = Storage_setattr ''config_dir'' (PStr config_dir) st
      in case (if \<not> path_exists (env st1) config_dir then os_mkdir config_dir (env st1)
               else Inr (env st1)) of
           Inl e \<Rightarrow> (Inl e, st1)
         | Inr w1 \<Rightarrow>
             (let filename = path_join config_dir (CONFIG_FILE_USER S);
                  st2 = Storage_setattr ''filename'' (PStr filename) (st1\<lparr>env := w1\<rparr>);
                  r = length (heap st2);
                  st3 = Storage_setattr ''db'' (PStoreRef r)
                          (st2\<lparr>heap := heap st2 @ [JSONStore_init filename None]\<rparr>);
                  st4 = Storage_setattr ''_loaded_db'' (PBool False) st3
              in if refresh
                 then Storage_load_db (Storage_setattr ''_loaded_db'' (PBool True) st4)
                 else (Inr (), st4)))"



text \<open>
  A Python dictionary has no key twice; the association lists that stand for the
  namespace of the class and for the data of the stores are taken to have none either.
\<close>

definition distinct_keys :: "pystate \<Rightarrow> bool" where
  "distinct_keys st \<longleftrightarrow>
     distinct (map fst (Storage_dict st)) \<and>
     list_all (\<lambda>s. distinct (map fst (data s))) (heap st)"


section \<open>Config\<close>

text \<open>
  \<^verbatim>\<open>Config\<close> is a \<^verbatim>\<open>dict\<close> whose \<^verbatim>\<open>__init__\<close> makes it its own attribute dictionary
  (\<^verbatim>\<open>self.__dict__ = self\<close>): an instance is one dictionary, read and written both as
  items and as attributes. Reading an attribute that is not an item raises
  \<^verbatim>\<open>AttributeError\<close> (no name read below is a method of the class).
\<close>

type_synonym config = pydict

definition Config_setitem :: "string \<Rightarrow> pyval \<Rightarrow> config \<Rightarrow> config" where
  "Config_setitem key v c = AList.update key v c"


definition Config_setattr :: "string \<Rightarrow> pyval \<Rightarrow> config \<Rightarrow> config" where
  "Config_setattr name v c = Config_setitem name v c"

definition Config_getattr :: "config \<Rightarrow> string \<Rightarrow> py_error + pyval" where
  "Config_getattr c name = (case map_of c name of None \<Rightarrow> Inl AttributeError | Some v \<Rightarrow> Inr v)"

definition Config_hasattr :: "config \<Rightarrow> string \<Rightarrow> bool" where
  "Config_hasattr c name \<longleftrightarrow> (case Config_getattr c name of Inl e \<Rightarrow> False | Inr v \<Rightarrow> True)"

definition config_template :: "settings \<Rightarrow> pydict" where
  "config_template S =
     [(''APP_NAME'', GENERIC_APP_NAME S),
      (''CLIENT_CONFIG_PATH'', DEFAULT_CLIENT_CONFIG S),
      (''COMPANY_NAME'', GENERIC_APP_NAME S),
      (''PLUGIN_CONFIGS'', PDict []),
      (''UPDATE_PATCHES'', PBool True),
      (''MAX_DOWNLOAD_RETRIES'', PInt 3)]"

definition Config_postinit :: "settings \<Rightarrow> config \<Rightarrow> config" where
  "Config_postinit S c = dict_update (config_template S) c"

text \<open>
  \<^verbatim>\<open>_load_config\<close>. The record read from the registry must be a dictionary for
  \<^verbatim>\<open>config_data.items()\<close>; an attribute \<^verbatim>\<open>db\<close> that is neither \<^verbatim>\<open>None\<close> nor a \<^verbatim>\<open>Storage\<close>
  has no \<^verbatim>\<open>load\<close>.
\<close>

definition Config_load_config :: "settings \<Rightarrow> config \<Rightarrow> pystate \<Rightarrow> (py_error + config) \<times> pystate" where
  "Config_load_config S c st =
     (case Config_getattr c ''db'' of
        Inl e \<Rightarrow> (Inl e, st)
      | Inr PNone \<Rightarrow> (Inl ConfigError, st)
      | Inr PStorageObj \<Rightarrow>
          (case Storage_load (CONFIG_DB_KEY_APP_CONFIG S) st of
             (Inl e, st1) \<Rightarrow> (Inl e, st1)
           | (Inr loaded, st1) \<Rightarrow>
               (case (if loaded = PNone then PDict [] else loaded) of
                  PDict config_data \<Rightarrow>
                    (Inr (Config_setattr ''DATA_DIR'' (PStr (cwd (env st1)))
                            (fold (\<lambda>(k, v). Config_setitem k v) config_data c)), st1)
                | _ \<Rightarrow> (Inl AttributeError, st1)))
      | Inr _ \<Rightarrow> (Inl AttributeError, st))"

text \<open>
  \<^verbatim>\<open>Config.__init__(*args, **kwargs)\<close>: \<open>args\<close> is the mapping passed by position (empty
  when there is none), \<open>kwargs\<close> the keyword arguments.
\<close>

definition Config_init :: "settings \<Rightarrow> pydict \<Rightarrow> pydict \<Rightarrow> pystate \<Rightarrow> (py_error + config) \<times> pystate" where
  "Config_init S args kwargs st =
     (let c0 = dict_update kwargs (dict_update args []);
          c1 = Config_postinit S c0;
          c2 = Config_setattr ''load_config'' (dict_get kwargs ''load_config'' (PBool False)) c1;
          c3 = Config_setattr ''client'' (dict_get kwargs ''client'' (PBool False)) c2
      in if Config_getattr c3 ''client'' = Inr (PBool False)
         then (case Storage_init S True st of
                 (Inl e, st1) \<Rightarrow> (Inl e, st1)
               | (Inr u, st1) \<Rightarrow>
                   (let c4 = Config_setattr ''db'' PStorageObj c3
                    in if Config_getattr c4 ''load_config'' = Inr (PBool True)
                       then Config_load_config S c4 st1
                       else (Inr c4, st1)))
         else (Inr (Config_setattr ''db'' PNone c3), st))"

text \<open>
  \<^verbatim>\<open>from_object\<close>. The object is given by its attributes: the names \<^verbatim>\<open>dir(obj)\<close> lists,
  in that order, each with the value \<^verbatim>\<open>getattr(obj, name)\<close> returns.
\<close>

definition Config_from_object :: "config \<Rightarrow> pydict \<Rightarrow> py_error + config" where
  "Config_from_object c obj =
     (case Config_getattr c ''client'' of
        Inl e \<Rightarrow> Inl e
      | Inr cl \<Rightarrow>
          if cl = PBool False then Inl ConfigError
          else Inr (fold (\<lambda>(key, v) c'. if isupper key then Config_setitem key v c' else c') obj c))"

text \<open>
  The arguments \<^verbatim>\<open>*value\<close> unpacks to, for \<^verbatim>\<open>os.path.join\<close>, which wants strings: the
  items of a list, the characters of a string, the keys of a dictionary.
\<close>

fun str_items :: "pyval list \<Rightarrow> py_error + string list" where
  "str_items [] = Inr []"
| "str_items (PStr s # rest) = (case str_items rest of Inl e \<Rightarrow> Inl e | Inr ss \<Rightarrow> Inr (s # ss))"
| "str_items (v # rest) = Inl TypeError"

definition star_args :: "pyval \<Rightarrow> py_error + string list" where
  "star_args v =
     (case v of
        PList xs \<Rightarrow> str_items xs
      | PStr s \<Rightarrow> Inr (map (\<lambda>ch. [ch]) s)
      | PDict d \<Rightarrow> Inr (map fst d)
      | _ \<Rightarrow> Inl TypeError)"

text \<open>One assignment line, written when the attribute is there.\<close>

definition attr_line :: "(string \<Rightarrow> pyval \<Rightarrow> config_line) \<Rightarrow> config \<Rightarrow> string \<Rightarrow> config_line list" where
  "attr_line fmt c name = (case Config_getattr c name of Inl e \<Rightarrow> [] | Inr v \<Rightarrow> [fmt name v])"

text \<open>The value of \<^verbatim>\<open>keypack_data\<close> in \<^verbatim>\<open>_write_config_py\<close>.\<close>

definition keypack_data :: "settings \<Rightarrow> config \<Rightarrow> pystate \<Rightarrow> (py_error + pyval) \<times> pystate" where
  "keypack_data S c st =
     (case Config_getattr c ''db'' of
        Inl e \<Rightarrow> (Inl e, st)
      | Inr PNone \<Rightarrow> (Inr PNone, st)
      | Inr PStorageObj \<Rightarrow> Storage_load (CONFIG_DB_KEY_KEYPACK S) st
      | Inr _ \<Rightarrow> (Inl AttributeError, st))"

text \<open>The value of \<^verbatim>\<open>public_key\<close>.\<close>

definition public_key_of :: "pyval \<Rightarrow> py_error + pyval" where
  "public_key_of kp =
     (if kp = PNone then Inr PNone
      else case subscript kp ''client'' of
             Inl e \<Rightarrow> Inl e
           | Inr cl \<Rightarrow> subscript cl ''offline_public'')"

text \<open>\<^verbatim>\<open>os.path.join(os.getcwd(), *self.CLIENT_CONFIG_PATH)\<close>.\<close>

definition client_config_file :: "config \<Rightarrow> world \<Rightarrow> py_error + string" where
  "client_config_file c w =
     (case Config_getattr c ''CLIENT_CONFIG_PATH'' of
        Inl e \<Rightarrow> Inl e
      | Inr ccp \<Rightarrow>
          (case star_args ccp of
             Inl e \<Rightarrow> Inl e
           | Inr segments \<Rightarrow> Inr (foldl path_join (cwd w) segments)))"

text \<open>What is written after the line \<^verbatim>\<open>class ClientConfig(object):\<close>.\<close>

definition client_config_lines :: "config \<Rightarrow> pyval \<Rightarrow> config_line list" where
  "client_config_lines c public_key =
     attr_line StrAttr c ''APP_NAME''
     @ attr_line StrAttr c ''COMPANY_NAME''
     @ attr_line RawAttr c ''UPDATE_URLS''
     @ (if Config_hasattr c ''PUBLIC_KEY'' then [StrAttr ''PUBLIC_KEY'' public_key] else [])
     @ attr_line RawAttr c ''MAX_DOWNLOAD_RETRIES''"

definition Config_write_config_py :: "settings \<Rightarrow> config \<Rightarrow> pystate \<Rightarrow> (py_error + unit) \<times> pystate" where
  "Config_write_config_py S c st =
     (case keypack_data S c st of
        (Inl e, st1) \<Rightarrow> (Inl e, st1)
      | (Inr kp, st1) \<Rightarrow>
          (case public_key_of kp of
             Inl e \<Rightarrow> (Inl e, st1)
           | Inr public_key \<Rightarrow>
               (case client_config_file c (env st1) of
                  Inl e \<Rightarrow> (Inl e, st1)
                | Inr filename \<Rightarrow>
                    if filename \<in> set (denied (env st1)) then (Inl IOError, st1)
                    else
                      (Inr (),
                       st1\<lparr>env := write_file filename
                              (ClientConfigPy (client_config_lines c public_key))
                              (env st1)\<rparr>))))"

definition Config_save_config :: "settings \<Rightarrow> config \<Rightarrow> pystate \<Rightarrow> (py_error + unit) \<times> pystate" where
  "Config_save_config S c st =
     (case Config_getattr c ''db'' of
        Inl e \<Rightarrow> (Inl e, st)
      | Inr PNone \<Rightarrow> (Inl ConfigError, st)
      | Inr PStorageObj \<Rightarrow>
          (let out = filter (\<lambda>(k, v). isupper k) c
           in case Storage_save (CONFIG_DB_KEY_APP_CONFIG S) (PDict out) st of
                (Inl e, st1) \<Rightarrow> (Inl e, st1)
              | (Inr u, st1) \<Rightarrow> Config_write_config_py S c st1)
      | Inr _ \<Rightarrow> (Inl AttributeError, st))"

section \<open>Example values\<close>

text \<open>
  Values for the constants of \<^verbatim>\<open>settings.py\<close> and a working directory with no files, for
  the examples below.
\<close>

definition example_settings :: settings where
  "example_settings =
     \<lparr>CONFIG_DATA_FOLDER = ''.pyupdater'',
      CONFIG_FILE_USER = ''config.pyu'',
      CONFIG_DB_KEY_APP_CONFIG = ''app_config'',
      CONFIG_DB_KEY_KEYPACK = ''keypack'',
      GENERIC_APP_NAME = PStr ''PyUpdater App'',
      DEFAULT_CLIENT_CONFIG = PList [PStr ''client_config.py'']\<rparr>"

definition example_world :: world where
  "example_world = \<lparr>files = [], dirs = [''/w''], denied = [], cwd = ''/w'', write_log = []\<rparr>"

text \<open>The process after \<^verbatim>\<open>Config()\<close>, and that configuration with two names set.\<close>

definition example_state :: pystate where
  "example_state = snd (Config_init example_settings [] [] (fresh_process example_world))"

definition example_config :: config where
  "example_config =
     [(''APP_NAME'', PStr ''Acme''),
      (''CLIENT_CONFIG_PATH'', PList [PStr ''client_config.py'']),
      (''COMPANY_NAME'', PStr ''Corp''),
      (''PLUGIN_CONFIGS'', PDict []),
      (''UPDATE_PATCHES'', PBool True),
      (''MAX_DOWNLOAD_RETRIES'', PInt 3),
      (''load_config'', PBool False),
      (''client'', PBool False),
      (''db'', PStorageObj),
      (''PUBLIC_KEY'', PNone)]"

section \<open>Dictionaries as association lists\<close>

lemma map_of_rev_distinct: "distinct (map fst xs) \<Longrightarrow> map_of (rev xs) = map_of xs"
  by (rule ext) (metis distinct_rev map_of_eq_Some_iff map_of_eq_None_iff rev_map set_rev not_Some_eq)

lemma map_of_fold_update:
  "map_of (fold (\<lambda>(k, v). AList.update k v) xs d) = map_of d ++ map_of (rev xs)"
proof (induction xs arbitrary: d)
  case Nil
  show ?case by simp
next
  case (Cons x xs)
  obtain k v where x: "x = (k, v)" by (cases x)
  show ?case
    by (simp add: x Cons.IH update_conv' map_add_upd_left map_add_def fun_eq_iff split: option.splits)
qed

lemma map_of_dict_update:
  "distinct (map fst xs) \<Longrightarrow> map_of (dict_update xs d) = map_of d ++ map_of xs"
  by (simp add: dict_update_def map_of_fold_update map_of_rev_distinct)

lemma distinct_fold_update:
  "distinct (map fst d) \<Longrightarrow> distinct (map fst (fold (\<lambda>(k, v). AList.update k v) xs d))"
  by (induction xs arbitrary: d) (auto simp: distinct_update)

lemma from_object_fold:
  "map_of (fold (\<lambda>(key, v) c'. if isupper key then Config_setitem key v c' else c') obj c) k =
     (if isupper k \<and> map_of (rev obj) k \<noteq> None then map_of (rev obj) k else map_of c k)"
proof (induction obj arbitrary: c)
  case Nil
  show ?case by simp
next
  case (Cons x obj)
  obtain key v where x: "x = (key, v)" by (cases x)
  show ?case
    by (auto simp: x Cons.IH Config_setitem_def update_conv' map_add_def split: option.splits)
qed

section \<open>Properties of JSONStore\<close>

lemma dict_eq_refl: "dict_eq a a"
  by (simp add: dict_eq_def list_all_iff)

lemma fold_setitem_loaded:
  "fold (\<lambda>(k, v). setitem_loaded k v) doc s =
     s\<lparr>data := fold (\<lambda>(k, v). AList.update k v) doc (data s),
       needs_sync := (doc \<noteq> [] \<or> needs_sync s)\<rparr>"
proof (induction doc arbitrary: s)
  case Nil
  show ?case by simp
next
  case (Cons x doc)
  obtain k v where x: "x = (k, v)" by (cases x)
  show ?case by (simp add: x Cons.IH) (simp add: setitem_loaded_def)
qed

lemma load_data_from_disk_eq:
  "JSONStore_load_data_from_disk w s =
     (case read_json w (path s) of
        Inl e \<Rightarrow> s\<lparr>data_from_disk_loaded := True\<rparr>
      | Inr doc \<Rightarrow>
          s\<lparr>data := fold (\<lambda>(k, v). AList.update k v) doc (data s),
            needs_sync := (doc \<noteq> [] \<or> needs_sync s),
            data_from_disk_loaded := True\<rparr>)"
  by (simp add: JSONStore_load_data_from_disk_def fold_setitem_loaded split: sum.splits)

lemma ensure_loaded_fields [simp]:
  "path (ensure_loaded w s) = path s"
  "json_kw (ensure_loaded w s) = json_kw s"
  "synced_json_kw (ensure_loaded w s) = synced_json_kw s"
  "data_from_disk_loaded (ensure_loaded w s)"
  by (auto simp: ensure_loaded_def load_data_from_disk_eq split: sum.splits)

lemma or_json_kw_ensure_loaded [simp]: "or_json_kw kw (ensure_loaded w s) = or_json_kw kw s"
  by (simp add: or_json_kw_def split: option.splits)

lemma or_json_kw_upd [simp]:
  "or_json_kw kw (s\<lparr>synced_json_kw := a\<rparr>) = or_json_kw kw s"
  "or_json_kw kw (s\<lparr>needs_sync := b\<rparr>) = or_json_kw kw s"
  by (simp_all add: or_json_kw_def split: option.splits)

lemma ensure_loaded_idem: "data_from_disk_loaded s \<Longrightarrow> ensure_loaded w s = s"
  by (simp add: ensure_loaded_def)

lemma ensure_loaded_needs_sync: "needs_sync s \<Longrightarrow> needs_sync (ensure_loaded w s)"
  by (auto simp: ensure_loaded_def load_data_from_disk_eq split: sum.splits)

lemma sync_needs_sync:
  assumes "JSONStore_sync kw force s w = (res, s1, w1)" and "res \<noteq> Inr True"
    and "m \<longrightarrow> needs_sync s"
  shows "m \<longrightarrow> needs_sync s1"
  using assms ensure_loaded_needs_sync[of s w]
  by (auto simp: JSONStore_sync_def Let_def split: if_splits)

lemma apply_op_inv:
  assumes "mutated t \<longrightarrow> needs_sync (store t)"
  shows "mutated (apply_op op t) \<longrightarrow> needs_sync (store (apply_op op t))"
proof (cases op)
  case (Sync kw force)
  obtain res s1 w1 where r: "JSONStore_sync kw force (store t) (disk t) = (res, s1, w1)"
    by (cases "JSONStore_sync kw force (store t) (disk t)")
  show ?thesis
  proof (cases "res = Inr True")
    case True
    then show ?thesis by (simp add: Sync r)
  next
    case False
    from sync_needs_sync[OF r False assms] show ?thesis by (simp add: Sync r False)
  qed
next
  case (Del k)
  then show ?thesis using assms ensure_loaded_needs_sync[of "store t" "disk t"]
    by (auto simp: JSONStore_delitem_def Let_def split: option.splits)
qed (use assms ensure_loaded_needs_sync[of "store t" "disk t"] in
      \<open>auto simp: JSONStore_getitem_def JSONStore_setitem_def setitem_loaded_def JSONStore_len_def
         JSONStore_iter_def JSONStore_copy_def JSONStore_keys_def Let_def split: option.splits\<close>)

lemma run_ops_inv:
  "mutated t \<longrightarrow> needs_sync (store t) \<Longrightarrow>
   mutated (run_ops ops t) \<longrightarrow> needs_sync (store (run_ops ops t))"
  unfolding run_ops_def
proof (induction ops arbitrary: t)
  case Nil
  then show ?case by simp
next
  case (Cons op ops)
  from Cons.IH[OF apply_op_inv[OF Cons.prems]] show ?case by simp
qed

text \<open>
  Claim C4 (amended). Two calls of \<^verbatim>\<open>sync\<close> with the same options and \<^verbatim>\<open>force=False\<close>, the
  first of which returns: the second returns \<^verbatim>\<open>False\<close> and changes neither the store
  nor the file system, so the two calls write the file at most once. The first call
  writes exactly when it returns \<^verbatim>\<open>True\<close>.
\<close>

theorem sync_twice:
  assumes "JSONStore_sync kw False s w = (Inr r1, s1, w1)"
  shows "JSONStore_sync kw False s1 w1 = (Inr False, s1, w1) \<and>
         write_log w1 = write_log w @ (if r1 then [path s] else [])"
proof -
  let ?t = "ensure_loaded w s"
  let ?k = "or_json_kw kw s"
  show ?thesis
  proof (cases r1)
    case True
    with assms have s1: "s1 = ?t\<lparr>synced_json_kw := Some ?k, needs_sync := False\<rparr>"
      and w1: "w1 = write_file (path s) (Document (JSONStore_sanatize (data ?t))) w"
      by (auto simp: JSONStore_sync_def Let_def split: if_splits)
    have l1: "data_from_disk_loaded s1" by (simp add: s1)
    have "JSONStore_sync kw False s1 w1 = (Inr False, s1, w1)"
      unfolding JSONStore_sync_def Let_def ensure_loaded_idem[OF l1]
      by (simp add: s1 kw_differs_def dict_eq_refl)
    moreover have "write_log w1 = write_log w @ [path s]"
      by (simp add: w1 write_file_def)
    ultimately show ?thesis using True by simp
  next
    case False
    with assms have s1: "s1 = ?t" and w1: "w1 = w"
      and nd: "\<not> kw_differs (synced_json_kw s) ?k" and ns: "\<not> needs_sync ?t"
      by (auto simp: JSONStore_sync_def Let_def split: if_splits)
    have l1: "data_from_disk_loaded ?t" by simp
    have "JSONStore_sync kw False ?t w = (Inr False, ?t, w)"
      unfolding JSONStore_sync_def Let_def ensure_loaded_idem[OF l1]
      using nd ns by simp
    then show ?thesis using False by (simp add: s1 w1)
  qed
qed

text \<open>The theorem at a new store over a file that does not exist yet.\<close>

theorem sync_twice_witness:
  "JSONStore_sync None False (JSONStore_init ''/w/db.json'' None) example_world =
     (Inr True,
      \<lparr>path = ''/w/db.json'', json_kw = [], data = [], synced_json_kw = Some [],
        needs_sync = False, data_from_disk_loaded = True\<rparr>,
      \<lparr>files = [(''/w/db.json'', Document [])], dirs = [''/w''], denied = [], cwd = ''/w'',
        write_log = [''/w/db.json'']\<rparr>) \<and>
   JSONStore_sync None False
     \<lparr>path = ''/w/db.json'', json_kw = [], data = [], synced_json_kw = Some [],
       needs_sync = False, data_from_disk_loaded = True\<rparr>
     \<lparr>files = [(''/w/db.json'', Document [])], dirs = [''/w''], denied = [], cwd = ''/w'',
       write_log = [''/w/db.json'']\<rparr> =
     (Inr False,
      \<lparr>path = ''/w/db.json'', json_kw = [], data = [], synced_json_kw = Some [],
        needs_sync = False, data_from_disk_loaded = True\<rparr>,
      \<lparr>files = [(''/w/db.json'', Document [])], dirs = [''/w''], denied = [], cwd = ''/w'',
        write_log = [''/w/db.json'']\<rparr>)"
proof -
  have h: "JSONStore_sync None False (JSONStore_init ''/w/db.json'' None) example_world =
     (Inr True,
      \<lparr>path = ''/w/db.json'', json_kw = [], data = [], synced_json_kw = Some [],
        needs_sync = False, data_from_disk_loaded = True\<rparr>,
      \<lparr>files = [(''/w/db.json'', Document [])], dirs = [''/w''], denied = [], cwd = ''/w'',
        write_log = [''/w/db.json'']\<rparr>)"
    by (simp add: JSONStore_sync_def JSONStore_init_def example_world_def ensure_loaded_def
        JSONStore_load_data_from_disk_def read_json_def or_json_kw_def kw_differs_def
        write_file_def Let_def)
  from sync_twice[OF h] h show ?thesis by simp
qed

text \<open>
  Counterexample to C4 as stated ("exactly one disk write"): of three calls in a row on
  a new store the first writes; the second and the third, two calls in a row with no
  mutation between them, write nothing.
\<close>

theorem sync_twice_counterexample:
  "write_log (disk (run_ops [Sync None False]
       (new_session ''/w/db.json'' None example_world))) = [''/w/db.json''] \<and>
   write_log (disk (run_ops [Sync None False, Sync None False, Sync None False]
       (new_session ''/w/db.json'' None example_world))) = [''/w/db.json'']"
  by (simp add: run_ops_def new_session_def JSONStore_sync_def JSONStore_init_def
      example_world_def ensure_loaded_def JSONStore_load_data_from_disk_def read_json_def
      or_json_kw_def kw_differs_def dict_eq_def write_file_def Let_def)

text \<open>
  Claim C5 (amended). In every run of calls on a new store, whenever the entries have
  been mutated by \<^verbatim>\<open>__setitem__\<close> or \<^verbatim>\<open>__delitem__\<close> since the last \<^verbatim>\<open>sync\<close> that wrote,
  \<^verbatim>\<open>_needs_sync\<close> is true. The converse does not hold: the lazy load installs the
  entries of the file through \<^verbatim>\<open>__setitem__\<close>, so a store that was only read over a file
  with at least one entry is dirty.
\<close>

theorem dirty_when_mutated:
  "(mutated (run_ops ops (new_session p kw w)) \<longrightarrow>
      needs_sync (store (run_ops ops (new_session p kw w)))) \<and>
   (read_json w p = Inr doc \<and> doc \<noteq> [] \<longrightarrow>
      needs_sync (store (apply_op (Get k) (new_session p kw w))) \<and>
      \<not> mutated (apply_op (Get k) (new_session p kw w)))"
proof
  show "mutated (run_ops ops (new_session p kw w)) \<longrightarrow>
      needs_sync (store (run_ops ops (new_session p kw w)))"
    by (rule run_ops_inv) (simp add: new_session_def)
  show "read_json w p = Inr doc \<and> doc \<noteq> [] \<longrightarrow>
      needs_sync (store (apply_op (Get k) (new_session p kw w))) \<and>
      \<not> mutated (apply_op (Get k) (new_session p kw w))"
    by (auto simp: new_session_def JSONStore_getitem_def Let_def ensure_loaded_def
        load_data_from_disk_eq JSONStore_init_def split: option.splits)
qed

text \<open>The theorem after one assignment, and after one read of a file with one entry.\<close>

theorem dirty_when_mutated_witness:
  "mutated (run_ops [Set ''A'' (PInt 1)] (new_session ''/w/db.json'' None example_world)) \<and>
   needs_sync (store (run_ops [Set ''A'' (PInt 1)]
      (new_session ''/w/db.json'' None example_world))) \<and>
   read_json (example_world\<lparr>files := [(''/w/db.json'', Document [(''A'', PInt 1)])]\<rparr>)
      ''/w/db.json'' = Inr [(''A'', PInt 1)] \<and>
   needs_sync (store (apply_op (Get ''A'') (new_session ''/w/db.json'' None
      (example_world\<lparr>files := [(''/w/db.json'', Document [(''A'', PInt 1)])]\<rparr>))))"
proof -
  have m: "mutated (run_ops [Set ''A'' (PInt 1)]
      (new_session ''/w/db.json'' None example_world))"
    by (simp add: run_ops_def)
  have r: "read_json (example_world\<lparr>files := [(''/w/db.json'', Document [(''A'', PInt 1)])]\<rparr>)
      ''/w/db.json'' = Inr [(''A'', PInt 1)]"
    by (simp add: read_json_def example_world_def)
  from m r
    dirty_when_mutated[of "[Set ''A'' (PInt 1)]" "''/w/db.json''" None example_world]
    dirty_when_mutated[of "[]" "''/w/db.json''" None
      "example_world\<lparr>files := [(''/w/db.json'', Document [(''A'', PInt 1)])]\<rparr>"
      "[(''A'', PInt 1)]" "''A''"]
  show ?thesis by simp
qed

text \<open>
  Counterexample to C5 as stated: over a file with one entry, one read of a new store
  leaves \<^verbatim>\<open>_needs_sync\<close> true although no entry was set or deleted.
\<close>

theorem dirty_counterexample:
  "needs_sync (store (run_ops [Get ''A''] (new_session ''/w/db.json'' None
      \<lparr>files = [(''/w/db.json'', Document [(''A'', PInt 1)])], dirs = [''/w''], denied = [],
        cwd = ''/w'', write_log = []\<rparr>))) \<noteq>
   mutated (run_ops [Get ''A''] (new_session ''/w/db.json'' None
      \<lparr>files = [(''/w/db.json'', Document [(''A'', PInt 1)])], dirs = [''/w''], denied = [],
        cwd = ''/w'', write_log = []\<rparr>))"
  by (simp add: run_ops_def new_session_def JSONStore_getitem_def Let_def ensure_loaded_def
      JSONStore_load_data_from_disk_def read_json_def JSONStore_init_def setitem_loaded_def)



section \<open>Properties of Config.from_object\<close>

text \<open>
  Claim C9. With the flag \<^verbatim>\<open>client\<close> false, \<^verbatim>\<open>from_object\<close> raises \<^verbatim>\<open>ConfigError\<close>. With
  the flag true it returns, and the configuration then has, under every upper-case
  name among the attributes of the object, the value the object has there, and
  under every other name what it had before.
\<close>

theorem from_object_spec:
  assumes "Config_getattr c ''client'' = Inr (PBool b)" and "distinct (map fst obj)"
  shows "(\<not> b \<longrightarrow> Config_from_object c obj = Inl ConfigError) \<and>
         (b \<longrightarrow> (\<exists>c'. Config_from_object c obj = Inr c' \<and>
                (\<forall>k. map_of c' k =
                   (if isupper k \<and> map_of obj k \<noteq> None then map_of obj k else map_of c k))))"
  using assms
  by (auto simp: Config_from_object_def from_object_fold map_of_rev_distinct)

text \<open>
  The theorem at a client configuration and an object with an upper-case and a
  lower-case attribute, and at a configuration that is not a client's.
\<close>

theorem from_object_spec_witness:
  "Config_getattr [(''APP_NAME'', PStr ''old''), (''client'', PBool True)] ''client'' =
     Inr (PBool True) \<and>
   distinct (map fst [(''APP_NAME'', PStr ''Acme''), (''debug'', PInt 1)]) \<and>
   Config_from_object [(''APP_NAME'', PStr ''old''), (''client'', PBool True)]
     [(''APP_NAME'', PStr ''Acme''), (''debug'', PInt 1)] =
     Inr [(''APP_NAME'', PStr ''Acme''), (''client'', PBool True)] \<and>
   Config_from_object [(''client'', PBool False)]
     [(''APP_NAME'', PStr ''Acme''), (''debug'', PInt 1)] = Inl ConfigError"
proof -
  have h1: "Config_getattr [(''APP_NAME'', PStr ''old''), (''client'', PBool True)] ''client'' =
     Inr (PBool True)"
    by (simp add: Config_getattr_def)
  have h2: "distinct (map fst [(''APP_NAME'', PStr ''Acme''), (''debug'', PInt 1)])"
    by simp
  have h3: "Config_getattr [(''client'', PBool False)] ''client'' = Inr (PBool False)"
    by (simp add: Config_getattr_def)
  have e: "Config_from_object [(''APP_NAME'', PStr ''old''), (''client'', PBool True)]
     [(''APP_NAME'', PStr ''Acme''), (''debug'', PInt 1)] =
     Inr [(''APP_NAME'', PStr ''Acme''), (''client'', PBool True)]"
    by (simp add: Config_from_object_def Config_getattr_def Config_setitem_def isupper_def
        is_upper_char_def is_lower_char_def)
  from from_object_spec[OF h1 h2] from_object_spec[OF h3 h2] h1 h2 e show ?thesis by simp
qed

section \<open>Properties of Storage\<close>

lemma fold_Storage_setattr:
  "fold (\<lambda>(k, v). Storage_setattr k v) items st =
     st\<lparr>Storage_dict := fold (\<lambda>(k, v). AList.update k v) items (Storage_dict st)\<rparr>"
proof (induction items arbitrary: st)
  case Nil
  show ?case by simp
next
  case (Cons x items)
  obtain k v where x: "x = (k, v)" by (cases x)
  show ?case by (simp add: x Cons.IH) (simp add: Storage_setattr_def)
qed

lemma Storage_load_db_Some:
  assumes "self_db st = Some r"
  shows "Storage_load_db st =
     (Inr (), \<lparr>Storage_dict = fold (\<lambda>(k, v). AList.update k v)
                   (data (ensure_loaded (env st) (heap st ! r))) (Storage_dict st),
               heap = (heap st)[r := ensure_loaded (env st) (heap st ! r)],
               env = env st\<rparr>)"
  using assms by (simp add: Storage_load_db_def JSONStore_iter_def Let_def fold_Storage_setattr)

lemma Storage_load_db_None: "self_db st = None \<Longrightarrow> Storage_load_db st = (Inl TypeError, st)"
  by (simp add: Storage_load_db_def)

lemma self_db_bound: "self_db st = Some r \<Longrightarrow> r < length (heap st)"
  by (auto simp: self_db_def split: pyval.splits if_splits)

lemma self_db_cong:
  "Storage_dict a = Storage_dict b \<Longrightarrow> length (heap a) = length (heap b) \<Longrightarrow> self_db a = self_db b"
  by (simp add: self_db_def Storage_getattr_def split: pyval.splits)

lemma self_db_heap_upd [simp]: "self_db (st\<lparr>heap := (heap st)[r := s]\<rparr>) = self_db st"
  by (rule self_db_cong) simp_all

lemma fold_JSONStore_setitem:
  "items \<noteq> [] \<Longrightarrow>
   fold (\<lambda>(k, v). JSONStore_setitem w k v) items s =
     (ensure_loaded w s)\<lparr>data := fold (\<lambda>(k, v). AList.update k v) items (data (ensure_loaded w s)),
                          needs_sync := True\<rparr>"
proof (induction items arbitrary: s)
  case Nil
  then show ?case by simp
next
  case (Cons x items)
  obtain k v where x: "x = (k, v)" by (cases x)
  show ?case
  proof (cases "items = []")
    case True
    then show ?thesis by (simp add: x JSONStore_setitem_def setitem_loaded_def)
  next
    case False
    have l: "data_from_disk_loaded (JSONStore_setitem w k v s)"
      by (simp add: JSONStore_setitem_def setitem_loaded_def)
    show ?thesis
      by (simp add: x Cons.IH[OF False] ensure_loaded_idem[OF l])
         (simp add: JSONStore_setitem_def setitem_loaded_def)
  qed
qed

lemma save_items_Some:
  assumes "self_db st = Some r"
  shows "save_items items st =
     (Inr (), st\<lparr>heap := (heap st)[r := fold (\<lambda>(k, v). JSONStore_setitem (env st) k v) items (heap st ! r)]\<rparr>)"
  using assms
proof (induction items arbitrary: st)
  case Nil
  then show ?case by simp
next
  case (Cons x items)
  obtain k v where x: "x = (k, v)" by (cases x)
  let ?st = "st\<lparr>heap := (heap st)[r := JSONStore_setitem (env st) k v (heap st ! r)]\<rparr>"
  have "self_db ?st = Some r" using Cons.prems by simp
  from Cons.IH[OF this] show ?case
    using Cons.prems self_db_bound[OF Cons.prems] by (simp add: x)
qed

lemma save_items_None: "self_db st = None \<Longrightarrow> items \<noteq> [] \<Longrightarrow> save_items items st = (Inl TypeError, st)"
  by (cases items) auto

lemma ensure_loaded_distinct:
  "distinct (map fst (data s)) \<Longrightarrow> distinct (map fst (data (ensure_loaded w s)))"
  by (auto simp: ensure_loaded_def load_data_from_disk_eq distinct_fold_update split: sum.splits)

lemma list_all_update: "list_all P xs \<Longrightarrow> P x \<Longrightarrow> list_all P (xs[r := x])"
  using set_update_subset_insert[of xs r x] by (auto simp: list_all_iff)

lemma map_path_update:
  "r < length xs \<Longrightarrow> path s = path (xs ! r) \<Longrightarrow> map path (xs[r := s]) = map path xs"
  by (simp add: map_update list_update_same_conv)

lemma sync_dirty:
  assumes "data_from_disk_loaded s" and "needs_sync s"
    and "JSONStore_sync kw force s w = (Inr b, s', w')"
  shows "b \<and> s' = s\<lparr>synced_json_kw := Some (or_json_kw kw s), needs_sync := False\<rparr> \<and>
         w' = write_file (path s) (Document (JSONStore_sanatize (data s))) w \<and>
         path s \<notin> set (denied w)"
  using assms(2,3) unfolding JSONStore_sync_def Let_def ensure_loaded_idem[OF assms(1)]
  by (auto split: if_splits)

text \<open>The optional reload that opens \<^verbatim>\<open>save\<close> and \<^verbatim>\<open>load\<close>.\<close>

lemma refreshed_cases:
  assumes "(if Storage_getattr st ''_loaded_db'' = PBool False then Storage_load_db st
            else (Inr (), st)) = (Inr u, st1)"
  obtains "st1 = st" "Storage_getattr st ''_loaded_db'' \<noteq> PBool False"
  | r where "self_db st = Some r" "Storage_getattr st ''_loaded_db'' = PBool False"
      "st1 = \<lparr>Storage_dict = fold (\<lambda>(k, v). AList.update k v)
                   (data (ensure_loaded (env st) (heap st ! r))) (Storage_dict st),
               heap = (heap st)[r := ensure_loaded (env st) (heap st ! r)],
               env = env st\<rparr>"
proof (cases "Storage_getattr st ''_loaded_db'' = PBool False")
  case False
  with assms that(1) show ?thesis by simp
next
  case True
  show ?thesis
  proof (cases "self_db st")
    case None
    with assms True show ?thesis by (simp add: Storage_load_db_None)
  next
    case (Some r)
    with assms True that(2)[of r] show ?thesis by (simp add: Storage_load_db_Some)
  qed
qed

lemma refreshed_frame:
  assumes "(if Storage_getattr st ''_loaded_db'' = PBool False then Storage_load_db st
            else (Inr (), st)) = (Inr u, st1)" and "distinct_keys st"
  shows "distinct_keys st1 \<and> env st1 = env st \<and> map path (heap st1) = map path (heap st)"
  using assms(1)
proof (cases rule: refreshed_cases)
  case 1
  then show ?thesis using assms(2) by simp
next
  case (2 r)
  have r: "r < length (heap st)" by (rule self_db_bound[OF 2(1)])
  have d: "distinct (map fst (data (heap st ! r)))"
    using assms(2) r by (simp add: distinct_keys_def list_all_length)
  show ?thesis
    using assms(2) r ensure_loaded_distinct[OF d, of "env st"]
    by (simp add: 2(3) distinct_keys_def distinct_fold_update list_all_update map_path_update)
qed

lemma Storage_save_success:
  assumes "Storage_save key v st = (Inr u, st')" and "distinct_keys st"
  shows "\<exists>r. self_db st' = Some r \<and>
           data_from_disk_loaded (heap st' ! r) \<and>
           map_of (Storage_dict st') key = Some v \<and>
           (\<forall>k x. map_of (Storage_dict st') k = Some x \<longrightarrow>
                  map_of (data (heap st' ! r)) k = Some x) \<and>
           map_of (files (env st')) (path (heap st' ! r)) =
             Some (Document (JSONStore_sanatize (data (heap st' ! r)))) \<and>
           path (heap st' ! r) \<notin> set (denied (env st')) \<and>
           distinct_keys st' \<and>
           map path (heap st') = map path (heap st) \<and>
           cwd (env st') = cwd (env st) \<and> denied (env st') = denied (env st)"
proof -
  obtain st1 where pre: "(if Storage_getattr st ''_loaded_db'' = PBool False then Storage_load_db st
            else (Inr (), st)) = (Inr (), st1)"
    using assms(1) unfolding Storage_save_def
    by (auto split: prod.splits sum.splits)
  define st2 where "st2 = Storage_setattr key v st1"
  from refreshed_frame[OF pre assms(2)]
  have f1: "distinct_keys st1" "env st1 = env st" "map path (heap st1) = map path (heap st)"
    by simp_all
  have cls2: "Storage_dict st2 = AList.update key v (Storage_dict st1)"
    and heap2: "heap st2 = heap st1" and env2: "env st2 = env st1"
    by (simp_all add: st2_def Storage_setattr_def)
  have ne: "Storage_dict st2 \<noteq> []" by (simp add: cls2)
  from assms(1) pre have rest: "(case save_items (Storage_dict st2) st2 of
                (Inl e, st3) \<Rightarrow> (Inl e, st3)
              | (Inr u, st3) \<Rightarrow> db_sync st3) = (Inr u, st')"
    by (simp add: Storage_save_def st2_def Let_def)
  obtain r where r: "self_db st2 = Some r"
    using rest save_items_None[OF _ ne, of st2] by (cases "self_db st2") auto
  have rb: "r < length (heap st1)" using self_db_bound[OF r] by (simp add: heap2)
  define s0 where "s0 = ensure_loaded (env st) (heap st1 ! r)"
  define s3 where "s3 = s0\<lparr>data := fold (\<lambda>(k, v). AList.update k v) (Storage_dict st2) (data s0),
                            needs_sync := True\<rparr>"
  define st3 where "st3 = st2\<lparr>heap := (heap st1)[r := s3]\<rparr>"
  have si: "save_items (Storage_dict st2) st2 = (Inr (), st3)"
    by (simp add: save_items_Some[OF r] fold_JSONStore_setitem[OF ne] st3_def s3_def s0_def
        heap2 env2 f1)
  have r3: "self_db st3 = Some r" using r by (simp add: st3_def heap2[symmetric])
  have h3: "heap st3 ! r = s3" using rb by (simp add: st3_def)
  have l3: "data_from_disk_loaded s3" "needs_sync s3" by (simp_all add: s3_def s0_def)
  from rest si have "db_sync st3 = (Inr u, st')" by simp
  then obtain b s' w' where sy: "JSONStore_sync None False s3 (env st3) = (Inr b, s', w')"
    and st': "st' = st3\<lparr>heap := (heap st3)[r := s'], env := w'\<rparr>"
    by (auto simp: db_sync_def r3 h3 split: prod.splits sum.splits)
  from sync_dirty[OF l3 sy]
  have s': "s' = s3\<lparr>synced_json_kw := Some (or_json_kw None s3), needs_sync := False\<rparr>"
    and w': "w' = write_file (path s3) (Document (JSONStore_sanatize (data s3))) (env st3)"
    and nd: "path s3 \<notin> set (denied (env st3))"
    by simp_all
  have env3: "env st3 = env st" by (simp add: st3_def env2 f1)
  have cls': "Storage_dict st' = Storage_dict st2" by (simp add: st' st3_def)
  have heap': "heap st' = (heap st1)[r := s']" by (simp add: st' st3_def)
  have hr: "heap st' ! r = s'" using rb by (simp add: heap')
  have d1: "distinct (map fst (Storage_dict st1))" using f1(1) by (simp add: distinct_keys_def)
  have d2: "distinct (map fst (Storage_dict st2))" using d1 by (simp add: cls2 distinct_update)
  have dh: "distinct (map fst (data (heap st1 ! r)))"
    using f1(1) rb by (simp add: distinct_keys_def list_all_length)
  have d0: "distinct (map fst (data s0))"
    unfolding s0_def by (rule ensure_loaded_distinct[OF dh])
  have ds': "distinct (map fst (data s'))"
    by (simp add: s' s3_def distinct_fold_update[OF d0])
  have "self_db st' = Some r"
    using r by (simp add: self_db_cong[of st' st2] cls' heap' heap2)
  moreover have "data_from_disk_loaded (heap st' ! r)" using l3 by (simp add: hr s')
  moreover have "map_of (Storage_dict st') key = Some v" by (simp add: cls' cls2 update_conv')
  moreover have "\<forall>k x. map_of (Storage_dict st') k = Some x \<longrightarrow>
                  map_of (data (heap st' ! r)) k = Some x"
    by (simp add: hr s' s3_def cls' map_of_fold_update map_of_rev_distinct[OF d2])
  moreover have "map_of (files (env st')) (path (heap st' ! r)) =
             Some (Document (JSONStore_sanatize (data (heap st' ! r))))"
    unfolding hr by (simp add: st' w' s' write_file_def update_conv')
  moreover have "path (heap st' ! r) \<notin> set (denied (env st'))"
    using nd unfolding hr by (simp add: st' w' s' write_file_def)
  moreover have "distinct_keys st'"
    using f1(1) d2 ds' by (simp add: distinct_keys_def cls' heap' list_all_update)
  moreover have "map path (heap st') = map path (heap st)"
    using rb by (simp add: heap' map_path_update s' s3_def s0_def f1(3)[symmetric])
  moreover have "cwd (env st') = cwd (env st)" "denied (env st') = denied (env st)"
    by (simp_all add: st' w' write_file_def env3)
  ultimately show ?thesis by blast
qed

lemma sanatize_filter:
  "JSONStore_sanatize d =
     filter (\<lambda>(k, v). \<not> (has_call v \<or> is_JSONStore v \<or>
        k \<in> set [''__weakref__'', ''__module__'', ''__dict__'', ''__doc__''])) d"
  by (induction d rule: JSONStore_sanatize.induct) auto

lemma map_of_filter_distinct:
  "distinct (map fst xs) \<Longrightarrow>
   map_of (filter P xs) k =
     (case map_of xs k of None \<Rightarrow> None | Some x \<Rightarrow> if P (k, x) then Some x else None)"
proof (induction xs)
  case Nil
  show ?case by simp
next
  case (Cons p xs)
  obtain k' v where p: "p = (k', v)" by (cases p)
  from Cons.prems have nk: "map_of xs k' = None" by (simp add: p map_of_eq_None_iff)
  from Cons.prems have d: "distinct (map fst xs)" by simp
  show ?case using Cons.IH[OF d] nk by (auto simp: p split: option.splits)
qed


lemma map_of_sanatize:
  "distinct (map fst d) \<Longrightarrow>
   map_of (JSONStore_sanatize d) k =
     (case map_of d k of
        None \<Rightarrow> None
      | Some x \<Rightarrow>
          if has_call x \<or> is_JSONStore x \<or>
             k \<in> set [''__weakref__'', ''__module__'', ''__dict__'', ''__doc__'']
          then None else Some x)"
  by (simp add: sanatize_filter map_of_filter_distinct split: option.splits)




text \<open>A state in which the store holds every attribute of the class, as after a save.\<close>

lemma Storage_load_covered:
  assumes r: "self_db st = Some r" and l: "data_from_disk_loaded (heap st ! r)"
    and d: "distinct (map fst (data (heap st ! r)))"
    and c: "\<forall>k x. map_of (Storage_dict st) k = Some x \<longrightarrow> map_of (data (heap st ! r)) k = Some x"
  shows "\<exists>st1. Storage_load key st = (Inr (dict_get (Storage_dict st1) key PNone), st1) \<and>
           env st1 = env st \<and> heap st1 = heap st \<and>
           (\<forall>k x. map_of (Storage_dict st) k = Some x \<longrightarrow> map_of (Storage_dict st1) k = Some x)"
proof (cases "Storage_getattr st ''_loaded_db'' = PBool False")
  case False
  then show ?thesis by (simp add: Storage_load_def)
next
  case True
  have e: "ensure_loaded (env st) (heap st ! r) = heap st ! r" by (rule ensure_loaded_idem[OF l])
  let ?st1 = "\<lparr>Storage_dict = fold (\<lambda>(k, v). AList.update k v) (data (heap st ! r)) (Storage_dict st),
               heap = heap st, env = env st\<rparr>"
  have "Storage_load key st = (Inr (dict_get (Storage_dict ?st1) key PNone), ?st1)"
    using True by (simp add: Storage_load_def Storage_load_db_Some[OF r] e)
  moreover have "\<forall>k x. map_of (Storage_dict st) k = Some x \<longrightarrow> map_of (Storage_dict ?st1) k = Some x"
    using c by (simp add: map_of_fold_update map_of_rev_distinct[OF d] map_add_def)
  ultimately show ?thesis by (intro exI[of _ ?st1]) simp
qed






lemma self_db_dict: "self_db st = Some r \<Longrightarrow> map_of (Storage_dict st) ''db'' = Some (PStoreRef r)"
  by (auto simp: self_db_def Storage_getattr_def dict_get_def split: pyval.splits option.splits if_splits)

lemma self_db_intro:
  "map_of (Storage_dict st) ''db'' = Some (PStoreRef r) \<Longrightarrow> r < length (heap st) \<Longrightarrow> self_db st = Some r"
  by (simp add: self_db_def Storage_getattr_def dict_get_def)






lemma pair_fst_snd: "fst p = a \<Longrightarrow> p = (a, snd p)"
  by (cases p) simp

lemma example_state_distinct: "distinct_keys example_state"
  by code_simp







section \<open>Properties of Config\<close>

lemma client_config_file_cong: "cwd w1 = cwd w \<Longrightarrow> client_config_file c w1 = client_config_file c w"
  by (simp add: client_config_file_def split: sum.splits)

lemma write_config_py_cases:
  assumes "Config_write_config_py S c st = (Inr u, st')"
  obtains kp st1 pk f where "keypack_data S c st = (Inr kp, st1)" "public_key_of kp = Inr pk"
    "client_config_file c (env st1) = Inr f" "f \<notin> set (denied (env st1))"
    "st' = st1\<lparr>env := write_file f (ClientConfigPy (client_config_lines c pk)) (env st1)\<rparr>"
  using assms unfolding Config_write_config_py_def
  by (auto split: prod.splits sum.splits if_splits)

lemma keypack_data_covered:
  assumes kd: "keypack_data S c st = (Inr kp, st1)"
    and r: "self_db st = Some r" and l: "data_from_disk_loaded (heap st ! r)"
    and d: "distinct (map fst (data (heap st ! r)))"
    and c: "\<forall>k x. map_of (Storage_dict st) k = Some x \<longrightarrow> map_of (data (heap st ! r)) k = Some x"
  shows "env st1 = env st \<and> heap st1 = heap st \<and>
         (\<forall>k x. map_of (Storage_dict st) k = Some x \<longrightarrow> map_of (Storage_dict st1) k = Some x)"
proof (cases "Config_getattr c ''db'' = Inr PStorageObj")
  case True
  with kd have "Storage_load (CONFIG_DB_KEY_KEYPACK S) st = (Inr kp, st1)"
    by (simp add: keypack_data_def)
  with Storage_load_covered[OF r l d c, of "CONFIG_DB_KEY_KEYPACK S"] show ?thesis by auto
next
  case False
  with kd have "st1 = st"
    by (auto simp: keypack_data_def split: sum.splits pyval.splits)
  then show ?thesis by simp
qed

lemma save_config_cases:
  assumes "Config_save_config S c st = (Inr u, st')"
  obtains u1 st1 where "Config_getattr c ''db'' = Inr PStorageObj"
    "Storage_save (CONFIG_DB_KEY_APP_CONFIG S) (PDict (filter (\<lambda>(k, v). isupper k) c)) st = (Inr u1, st1)"
    "Config_write_config_py S c st1 = (Inr u, st')"
  using assms unfolding Config_save_config_def Let_def
  by (auto split: prod.splits sum.splits pyval.splits)

lemma save_config_success:
  assumes sc: "Config_save_config S c st = (Inr u, st')" and dk: "distinct_keys st"
  shows "\<exists>r D f X. self_db st' = Some r \<and>
           map_of (Storage_dict st') (CONFIG_DB_KEY_APP_CONFIG S) =
             Some (PDict (filter (\<lambda>(k, v). isupper k) c)) \<and>
           distinct (map fst D) \<and>
           map_of D (CONFIG_DB_KEY_APP_CONFIG S) = Some (PDict (filter (\<lambda>(k, v). isupper k) c)) \<and>
           map_of D ''db'' = Some (PStoreRef r) \<and>
           client_config_file c (env st) = Inr f \<and>
           map_of (files (env st')) (path (heap st' ! r)) =
             (if f = path (heap st' ! r) then Some (ClientConfigPy X)
              else Some (Document (JSONStore_sanatize D))) \<and>
           path (heap st' ! r) \<notin> set (denied (env st')) \<and>
           r < length (heap st) \<and> path (heap st' ! r) = path (heap st ! r) \<and>
           cwd (env st') = cwd (env st)"
proof -
  let ?out = "filter (\<lambda>(k, v). isupper k) c"
  let ?APP = "CONFIG_DB_KEY_APP_CONFIG S"
  from sc obtain u1 st1 where sv: "Storage_save ?APP (PDict ?out) st = (Inr u1, st1)"
    and wc: "Config_write_config_py S c st1 = (Inr u, st')"
    by (rule save_config_cases)
  from Storage_save_success[OF sv dk]
  obtain r where r: "self_db st1 = Some r" and l: "data_from_disk_loaded (heap st1 ! r)"
    and k: "map_of (Storage_dict st1) ?APP = Some (PDict ?out)"
    and c: "\<forall>k x. map_of (Storage_dict st1) k = Some x \<longrightarrow>
                  map_of (data (heap st1 ! r)) k = Some x"
    and f: "map_of (files (env st1)) (path (heap st1 ! r)) =
             Some (Document (JSONStore_sanatize (data (heap st1 ! r))))"
    and nd: "path (heap st1 ! r) \<notin> set (denied (env st1))"
    and d: "distinct_keys st1"
    and mp: "map path (heap st1) = map path (heap st)"
    and cw: "cwd (env st1) = cwd (env st)"
    by blast
  let ?D = "data (heap st1 ! r)"
  have rb: "r < length (heap st1)" by (rule self_db_bound[OF r])
  have len: "length (heap st1) = length (heap st)" using arg_cong[OF mp, of length] by simp
  have dd: "distinct (map fst ?D)"
    using d rb by (simp add: distinct_keys_def list_all_length)
  from wc obtain kp st2 pk fn where kd: "keypack_data S c st1 = (Inr kp, st2)"
    and cf: "client_config_file c (env st2) = Inr fn"
    and st': "st' = st2\<lparr>env := write_file fn (ClientConfigPy (client_config_lines c pk)) (env st2)\<rparr>"
    by (rule write_config_py_cases)
  from keypack_data_covered[OF kd r l dd c]
  have e2: "env st2 = env st1" and h2: "heap st2 = heap st1"
    and c2: "\<forall>k x. map_of (Storage_dict st1) k = Some x \<longrightarrow> map_of (Storage_dict st2) k = Some x"
    by simp_all
  have cls': "Storage_dict st' = Storage_dict st2" and heap': "heap st' = heap st1"
    and files': "files (env st') = AList.update fn (ClientConfigPy (client_config_lines c pk)) (files (env st1))"
    and den': "denied (env st') = denied (env st1)" and cwd': "cwd (env st') = cwd (env st1)"
    by (simp_all add: st' h2 e2 write_file_def)
  have "self_db st' = Some r"
    using c2 self_db_dict[OF r] rb by (intro self_db_intro) (simp_all add: cls' heap')
  moreover have "map_of (Storage_dict st') ?APP = Some (PDict ?out)" using c2 k by (simp add: cls')
  moreover have "map_of ?D ?APP = Some (PDict ?out)" using c k by simp
  moreover have "map_of ?D ''db'' = Some (PStoreRef r)" using c self_db_dict[OF r] by simp
  moreover have "client_config_file c (env st) = Inr fn"
    using cf by (simp add: e2 client_config_file_cong[OF cw])
  moreover have "map_of (files (env st')) (path (heap st' ! r)) =
             (if fn = path (heap st' ! r) then Some (ClientConfigPy (client_config_lines c pk))
              else Some (Document (JSONStore_sanatize ?D)))"
    using f by (simp add: files' heap' update_conv')
  moreover have "path (heap st' ! r) \<notin> set (denied (env st'))" using nd by (simp add: heap' den')
  moreover have "r < length (heap st)" using rb len by simp
  moreover have "path (heap st' ! r) = path (heap st ! r)"
  proof -
    have "path (heap st1 ! r) = map path (heap st1) ! r" using rb by simp
    also have "\<dots> = map path (heap st) ! r" by (simp add: mp)
    also have "\<dots> = path (heap st ! r)" using rb len by simp
    finally show ?thesis by (simp add: heap')
  qed
  moreover have "cwd (env st') = cwd (env st)" by (simp add: cwd' cw)
  ultimately show ?thesis using dd by blast
qed

lemma isupper_no_lower: "isupper k \<Longrightarrow> \<not> list_ex is_lower_char k"
  by (simp add: isupper_def)








lemma example_save_config: "fst (Config_save_config example_settings example_config example_state) = Inr ()"
  by code_simp

text \<open>
  Claim C7. When \<^verbatim>\<open>save_config\<close> returns, the record bound to the settings key in the
  registry is the dictionary of the upper-case items of the configuration: each of
  its keys satisfies \<^verbatim>\<open>isupper\<close>, has no lower-case character and is neither \<^verbatim>\<open>_internal\<close>
  nor \<^verbatim>\<open>client\<close>. Whenever the file of the store holds a JSON object with a record
  under the settings key, it is that record.
\<close>

theorem saved_record_upper_case:
  assumes "Config_save_config S c st = (Inr u, st')" and "distinct_keys st"
  shows "\<exists>out r. map_of (Storage_dict st') (CONFIG_DB_KEY_APP_CONFIG S) = Some (PDict out) \<and>
           out = filter (\<lambda>(k, v). isupper k) c \<and>
           (\<forall>k \<in> fst ` set out.
              isupper k \<and> \<not> list_ex is_lower_char k \<and> k \<noteq> ''_internal'' \<and> k \<noteq> ''client'') \<and>
           self_db st' = Some r \<and>
           (\<forall>d rec. map_of (files (env st')) (path (heap st' ! r)) = Some (Document d) \<and>
              map_of d (CONFIG_DB_KEY_APP_CONFIG S) = Some rec \<longrightarrow> rec = PDict out)"
proof -
  let ?out = "filter (\<lambda>(k, v). isupper k) c"
  from save_config_success[OF assms]
  obtain r D f X where r: "self_db st' = Some r"
    and k: "map_of (Storage_dict st') (CONFIG_DB_KEY_APP_CONFIG S) = Some (PDict ?out)"
    and dd: "distinct (map fst D)"
    and kD: "map_of D (CONFIG_DB_KEY_APP_CONFIG S) = Some (PDict ?out)"
    and fl: "map_of (files (env st')) (path (heap st' ! r)) =
             (if f = path (heap st' ! r) then Some (ClientConfigPy X)
              else Some (Document (JSONStore_sanatize D)))"
    by blast
  have up: "\<forall>k \<in> fst ` set ?out.
              isupper k \<and> \<not> list_ex is_lower_char k \<and> k \<noteq> ''_internal'' \<and> k \<noteq> ''client''"
  proof
    fix k assume "k \<in> fst ` set ?out"
    then have u: "isupper k" by auto
    moreover have "\<not> isupper ''_internal''" "\<not> isupper ''client''"
      by (simp_all add: isupper_def is_upper_char_def is_lower_char_def)
    ultimately show "isupper k \<and> \<not> list_ex is_lower_char k \<and> k \<noteq> ''_internal'' \<and> k \<noteq> ''client''"
      using isupper_no_lower[OF u] by auto
  qed
  have fd: "\<forall>d rec. map_of (files (env st')) (path (heap st' ! r)) = Some (Document d) \<and>
              map_of d (CONFIG_DB_KEY_APP_CONFIG S) = Some rec \<longrightarrow> rec = PDict ?out"
    using fl kD by (auto simp: map_of_sanatize[OF dd] split: if_splits)
  show ?thesis using k up r fd by blast
qed

text \<open>The theorem at the configuration and the process of the example.\<close>

theorem saved_record_upper_case_witness:
  "distinct_keys example_state \<and>
   fst (Config_save_config example_settings example_config example_state) = Inr () \<and>
   map_of (Storage_dict (snd (Config_save_config example_settings example_config example_state)))
     ''app_config'' =
     Some (PDict
       [(''APP_NAME'', PStr ''Acme''),
        (''CLIENT_CONFIG_PATH'', PList [PStr ''client_config.py'']),
        (''COMPANY_NAME'', PStr ''Corp''),
        (''PLUGIN_CONFIGS'', PDict []),
        (''UPDATE_PATCHES'', PBool True),
        (''MAX_DOWNLOAD_RETRIES'', PInt 3),
        (''PUBLIC_KEY'', PNone)])"
proof -
  have f: "filter (\<lambda>(k, v). isupper k) example_config =
       [(''APP_NAME'', PStr ''Acme''),
        (''CLIENT_CONFIG_PATH'', PList [PStr ''client_config.py'']),
        (''COMPANY_NAME'', PStr ''Corp''),
        (''PLUGIN_CONFIGS'', PDict []),
        (''UPDATE_PATCHES'', PBool True),
        (''MAX_DOWNLOAD_RETRIES'', PInt 3),
        (''PUBLIC_KEY'', PNone)]"
    by code_simp
  have a: "CONFIG_DB_KEY_APP_CONFIG example_settings = ''app_config''"
    by (simp add: example_settings_def)
  from saved_record_upper_case[OF pair_fst_snd[OF example_save_config] example_state_distinct]
    example_state_distinct example_save_config
  show ?thesis by (auto simp: f a)
qed



text \<open>
  Claim C2 (amended). In \<^verbatim>\<open>_write_config_py\<close>, when the key-material record is absent
  (\<^verbatim>\<open>load\<close> returns \<^verbatim>\<open>None\<close>, as it does when the key is not bound, or no registry is
  attached), \<^verbatim>\<open>None\<close> is taken for the public key and, where the path of the artifact
  can be formed and opened, the file is written and the call returns; the line for
  \<^verbatim>\<open>PUBLIC_KEY\<close>, written when the configuration has that attribute, carries \<^verbatim>\<open>None\<close>.
  When the record is present but has no entry \<^verbatim>\<open>client\<close>, or its entry \<^verbatim>\<open>client\<close> has no
  entry \<^verbatim>\<open>offline_public\<close>, the call raises \<^verbatim>\<open>KeyError\<close> and writes nothing.
\<close>

theorem write_config_py_public_key:
  "(keypack_data S c st = (Inr PNone, st1) \<and> client_config_file c (env st1) = Inr f \<and>
    f \<notin> set (denied (env st1)) \<longrightarrow>
      Config_write_config_py S c st =
        (Inr (), st1\<lparr>env := write_file f (ClientConfigPy (client_config_lines c PNone)) (env st1)\<rparr>)) \<and>
   (Config_hasattr c ''PUBLIC_KEY'' \<longrightarrow>
      StrAttr ''PUBLIC_KEY'' PNone \<in> set (client_config_lines c PNone)) \<and>
   (Config_getattr c ''db'' = Inr PNone \<longrightarrow> keypack_data S c st = (Inr PNone, st)) \<and>
   (Config_getattr c ''db'' = Inr PStorageObj \<and>
    Storage_getattr st ''_loaded_db'' \<noteq> PBool False \<and>
    map_of (Storage_dict st) (CONFIG_DB_KEY_KEYPACK S) = None \<longrightarrow>
      keypack_data S c st = (Inr PNone, st)) \<and>
   (keypack_data S c st = (Inr (PDict kp), st1) \<and>
    (map_of kp ''client'' = None \<or>
     (\<exists>cl. map_of kp ''client'' = Some (PDict cl) \<and> map_of cl ''offline_public'' = None)) \<longrightarrow>
      Config_write_config_py S c st = (Inl KeyError, st1))"
  by (auto simp: Config_write_config_py_def public_key_of_def subscript_def keypack_data_def
      client_config_lines_def Storage_load_def dict_get_def)

text \<open>
  The theorem with no key-material record in the registry, with no registry, and with
  a key-material record that is an empty dictionary.
\<close>

theorem write_config_py_public_key_witness:
  "keypack_data example_settings example_config example_state = (Inr PNone, example_state) \<and>
   client_config_file example_config (env example_state) = Inr ''/w/client_config.py'' \<and>
   ''/w/client_config.py'' \<notin> set (denied (env example_state)) \<and>
   Config_write_config_py example_settings example_config example_state =
     (Inr (), example_state\<lparr>env := write_file ''/w/client_config.py''
        (ClientConfigPy (client_config_lines example_config PNone)) (env example_state)\<rparr>) \<and>
   Config_hasattr example_config ''PUBLIC_KEY'' \<and>
   StrAttr ''PUBLIC_KEY'' PNone \<in> set (client_config_lines example_config PNone) \<and>
   Config_getattr [(''db'', PNone)] ''db'' = Inr PNone \<and>
   keypack_data example_settings [(''db'', PNone)] example_state = (Inr PNone, example_state) \<and>
   fst (keypack_data example_settings example_config
      (snd (Storage_save ''keypack'' (PDict []) example_state))) = Inr (PDict []) \<and>
   fst (Config_write_config_py example_settings example_config
      (snd (Storage_save ''keypack'' (PDict []) example_state))) = Inl KeyError"
proof -
  let ?k = "snd (Storage_save ''keypack'' (PDict []) example_state)"
  have db: "Config_getattr example_config ''db'' = Inr PStorageObj" by code_simp
  have fl: "Storage_getattr example_state ''_loaded_db'' \<noteq> PBool False" by code_simp
  have nk: "map_of (Storage_dict example_state) (CONFIG_DB_KEY_KEYPACK example_settings) = None"
    by code_simp
  have cf: "client_config_file example_config (env example_state) = Inr ''/w/client_config.py''"
    by code_simp
  have nd: "''/w/client_config.py'' \<notin> set (denied (env example_state))" by code_simp
  have hp: "Config_hasattr example_config ''PUBLIC_KEY''" by code_simp
  have dn: "Config_getattr [(''db'', PNone)] ''db'' = Inr PNone" by code_simp
  have kk: "fst (keypack_data example_settings example_config ?k) = Inr (PDict [])" by code_simp
  note t = write_config_py_public_key[where S = example_settings and c = example_config
      and st = example_state and ?st1.0 = example_state and f = "''/w/client_config.py''"]
  note t3 = write_config_py_public_key[where S = example_settings and c = "[(''db'', PNone)]"
      and st = example_state]
  note t5 = write_config_py_public_key[where S = example_settings and c = example_config
      and st = ?k and kp = "[]" and ?st1.0 = "snd (keypack_data example_settings example_config ?k)"]
  from t db fl nk have k1: "keypack_data example_settings example_config example_state =
      (Inr PNone, example_state)" by blast
  from t k1 cf nd have w1: "Config_write_config_py example_settings example_config example_state =
     (Inr (), example_state\<lparr>env := write_file ''/w/client_config.py''
        (ClientConfigPy (client_config_lines example_config PNone)) (env example_state)\<rparr>)"
    by blast
  from t hp have l1: "StrAttr ''PUBLIC_KEY'' PNone \<in> set (client_config_lines example_config PNone)"
    by blast
  from t3 dn have k3: "keypack_data example_settings [(''db'', PNone)] example_state =
      (Inr PNone, example_state)" by blast
  from t5 pair_fst_snd[OF kk]
  have "Config_write_config_py example_settings example_config ?k =
      (Inl KeyError, snd (keypack_data example_settings example_config ?k))"
    by simp
  then have e5: "fst (Config_write_config_py example_settings example_config ?k) = Inl KeyError"
    by simp
  from k1 cf nd w1 hp l1 dn k3 kk e5 show ?thesis by simp
qed

text \<open>
  Counterexample to C2 as stated: with the empty dictionary saved as the key-material
  record, \<^verbatim>\<open>_write_config_py\<close> raises \<^verbatim>\<open>KeyError\<close>.
\<close>

theorem write_config_py_counterexample:
  "fst (Config_write_config_py example_settings example_config
      (snd (Storage_save ''keypack'' (PDict []) example_state))) = Inl KeyError"
  by code_simp



end
